theory Spec2Isabelle
  imports Main "HOL-Library.Char_ord" "HOL-Library.Word"
begin

section \<open>Tokens\<close>

text \<open>
  The package \<^verbatim>\<open>token\<close> is imported by every source file but is not among them.
  Its token categories are the ones the lexer and the parser name; the record
  \<open>Token\<close> has the two fields that they read and write. The category \<^verbatim>\<open>token.INT\<close> is
  \<open>INT_t\<close>, since \<open>INT\<close> is reserved in terms.
\<close>

datatype TokenType =
    IDENT | INT_t | STRING | ASSIGN | PLUS | MINUS | ASTERISK | SLASH | BANG | EQ | NOT_EQ
  | LT | GT | LPAREN | RPAREN | LBRACE | RBRACE | LBRACKET | RBRACKET | COMMA | SEMICOLON
  | LET | RETURN | FUNCTION | IF | ELSE | TRUE | FALSE | EOF | ILLEGAL

record Token =
  Type :: TokenType
  Literal :: string

text \<open>
  Modelled from the spec: the keyword table of \<^verbatim>\<open>token.LookupIdent\<close>, which is missing
  from the sources. The spec gives it as \<^verbatim>\<open>fn\<close>, \<^verbatim>\<open>let\<close>, \<^verbatim>\<open>true\<close>, \<^verbatim>\<open>false\<close>, \<^verbatim>\<open>if\<close>,
  \<^verbatim>\<open>else\<close>, \<^verbatim>\<open>return\<close>; any other identifier-shaped text is \<open>IDENT\<close>.
\<close>

definition keyword_table :: "string \<rightharpoonup> TokenType" where
  "keyword_table = map_of
     [(''fn'', FUNCTION), (''let'', LET), (''true'', TRUE), (''false'', FALSE),
      (''if'', IF), (''else'', ELSE), (''return'', RETURN)]"

definition LookupIdent :: "string \<Rightarrow> TokenType" where
  "LookupIdent ident = (case keyword_table ident of Some tok \<Rightarrow> tok | None \<Rightarrow> IDENT)"

section \<open>Run-time panics\<close>

text \<open>
  Go panics when a slice expression leaves the bounds of its string and when a nil
  pointer or a nil interface is dereferenced. Both are values of the model.
\<close>

datatype error = SliceOutOfRange | NilDereference

text \<open>\<^verbatim>\<open>s[lo:hi]\<close> on a string needs \<open>lo \<le> hi \<le> len(s)\<close>.\<close>

definition slice :: "string \<Rightarrow> nat \<Rightarrow> nat \<Rightarrow> error + string" where
  "slice s lo hi =
     (if lo \<le> hi \<and> hi \<le> length s then Inr (take (hi - lo) (drop lo s))
      else Inl SliceOutOfRange)"

section \<open>The lexer (lexer/lexer.go)\<close>

text \<open>
  A Go string is a sequence of bytes and \<open>ch\<close> is one byte: \<open>char\<close> is the type of
  bytes and \<open>string\<close> the type of byte sequences. The byte 0 is the lexer's mark for
  the end of the input. The two cursors are Go \<^verbatim>\<open>int\<close>s that only ever count up from 0
  by one per \<open>readChar\<close>; they are natural numbers here (they cannot reach \<open>2^63\<close> in a
  run that ends).
\<close>

record Lexer =
  input :: string
  position :: nat
  readPosition :: nat
  ch :: char

definition readChar :: "Lexer \<Rightarrow> Lexer" where
  "readChar l =
     l\<lparr>ch := (if readPosition l \<ge> length (input l) then CHR 0x00
              else input l ! readPosition l),
       position := readPosition l,
       readPosition := readPosition l + 1\<rparr>"

definition lexer_New :: "string \<Rightarrow> Lexer" where
  "lexer_New inp = readChar \<lparr>input = inp, position = 0, readPosition = 0, ch = CHR 0x00\<rparr>"

definition peekChar :: "Lexer \<Rightarrow> char" where
  "peekChar l =
     (if readPosition l \<ge> length (input l) then CHR 0x00 else input l ! readPosition l)"

text \<open>
  \<^verbatim>\<open>string(ch)\<close> on a byte is the UTF-8 encoding of the code point with that number:
  one byte below 128, two bytes from 128 on.
\<close>

definition string_of_byte :: "char \<Rightarrow> string" where
  "string_of_byte c =
     (if (of_char c :: nat) < 128 then [c]
      else [char_of (192 + (of_char c :: nat) div 64), char_of (128 + (of_char c :: nat) mod 64)])"

definition newToken :: "TokenType \<Rightarrow> char \<Rightarrow> Token" where
  "newToken tokenType c = \<lparr>Type = tokenType, Literal = string_of_byte c\<rparr>"

definition isNum :: "char \<Rightarrow> bool" where
  "isNum c \<longleftrightarrow> CHR ''0'' \<le> c \<and> c \<le> CHR ''9''"

definition isChar :: "char \<Rightarrow> bool" where
  "isChar c \<longleftrightarrow>
     (CHR ''a'' \<le> c \<and> c \<le> CHR ''z'') \<or> (CHR ''A'' \<le> c \<and> c \<le> CHR ''Z'') \<or> c = CHR ''_''"

definition isSpace :: "char \<Rightarrow> bool" where
  "isSpace c \<longleftrightarrow> c = CHR '' '' \<or> c = CHR 0x09 \<or> c = CHR 0x0A \<or> c = CHR 0x0D"

text \<open>
  The loops of the lexer. Each runs \<open>readChar\<close> while \<open>ch\<close> is in a class that excludes
  the byte 0, which \<open>readChar\<close> delivers from the end of the input on.
\<close>

definition lexer_measure :: "(char \<Rightarrow> bool) \<Rightarrow> Lexer \<Rightarrow> nat" where
  "lexer_measure P l = (length (input l) + 1 - readPosition l) + (if P (ch l) then 1 else 0)"

function skipSpaces :: "Lexer \<Rightarrow> Lexer" where
  "skipSpaces l = (if isSpace (ch l) then skipSpaces (readChar l) else l)"
  by pat_completeness auto
termination
  by (relation "measure (lexer_measure isSpace)")
     (auto simp: lexer_measure_def readChar_def isSpace_def)

function readIdentifier_loop :: "Lexer \<Rightarrow> Lexer" where
  "readIdentifier_loop l = (if isChar (ch l) then readIdentifier_loop (readChar l) else l)"
  by pat_completeness auto
termination
  by (relation "measure (lexer_measure isChar)")
     (auto simp: lexer_measure_def readChar_def isChar_def)

function readInt_loop :: "Lexer \<Rightarrow> Lexer" where
  "readInt_loop l = (if isNum (ch l) then readInt_loop (readChar l) else l)"
  by pat_completeness auto
termination
  by (relation "measure (lexer_measure isNum)")
     (auto simp: lexer_measure_def readChar_def isNum_def)

text \<open>The loop of \<open>readString\<close> reads first and tests afterwards.\<close>

function readString_loop :: "Lexer \<Rightarrow> Lexer" where
  "readString_loop l =
     (let l' = readChar l
      in if ch l' = CHR 0x22 \<or> ch l' = CHR 0x00 then l' else readString_loop l')"
  by pat_completeness auto
termination
  by (relation "measure (\<lambda>l. length (input l) + 1 - readPosition l)")
     (auto simp: readChar_def split: if_splits)

definition readIdentifier :: "Lexer \<Rightarrow> error + (string \<times> Lexer)" where
  "readIdentifier l =
     (let start = position l; l' = readIdentifier_loop l
      in case slice (input l') start (position l') of
           Inl e \<Rightarrow> Inl e
         | Inr s \<Rightarrow> Inr (s, l'))"

definition readInt :: "Lexer \<Rightarrow> error + (string \<times> Lexer)" where
  "readInt l =
     (let start = position l; l' = readInt_loop l
      in case slice (input l') start (position l') of
           Inl e \<Rightarrow> Inl e
         | Inr s \<Rightarrow> Inr (s, l'))"

definition readString :: "Lexer \<Rightarrow> error + (string \<times> Lexer)" where
  "readString l =
     (let l1 = readChar l; start = position l1; l2 = readString_loop l1
      in case slice (input l2) start (position l2) of
           Inl e \<Rightarrow> Inl e
         | Inr s \<Rightarrow> Inr (s, l2))"

text \<open>
  The two-character operators \<^verbatim>\<open>==\<close> and \<^verbatim>\<open>!=\<close>: the literal is the slice
  \<^verbatim>\<open>input[position : readPosition+1]\<close>, and the cursor moves twice (once in the branch,
  once after the switch).
\<close>

definition twoCharToken :: "TokenType \<Rightarrow> Lexer \<Rightarrow> error + (Token \<times> Lexer)" where
  "twoCharToken tokenType l =
     (case slice (input l) (position l) (readPosition l + 1) of
        Inl e \<Rightarrow> Inl e
      | Inr s \<Rightarrow> Inr (\<lparr>Type = tokenType, Literal = s\<rparr>, readChar (readChar l)))"

text \<open>The branches of the switch that build the token from \<open>ch\<close> alone.\<close>

definition singleCharType :: "char \<rightharpoonup> TokenType" where
  "singleCharType = map_of
     [(CHR ''+'', PLUS), (CHR ''-'', MINUS), (CHR ''*'', ASTERISK), (CHR ''/'', SLASH),
      (CHR ''>'', GT), (CHR ''<'', LT), (CHR ''('', LPAREN), (CHR '')'', RPAREN),
      (CHR ''{'', LBRACE), (CHR ''}'', RBRACE), (CHR ''['', LBRACKET), (CHR '']'', RBRACKET),
      (CHR '','', COMMA), (CHR '';'', SEMICOLON)]"

definition lexer_NextToken :: "Lexer \<Rightarrow> error + (Token \<times> Lexer)" where
  "lexer_NextToken l0 =
     (let l = skipSpaces l0 in
      if ch l = CHR ''='' then
        (if peekChar l = CHR ''='' then twoCharToken EQ l
         else Inr (newToken ASSIGN (ch l), readChar l))
      else if ch l = CHR ''!'' then
        (if peekChar l = CHR ''='' then twoCharToken NOT_EQ l
         else Inr (newToken BANG (ch l), readChar l))
      else if ch l = CHR 0x22 then
        (case readString l of
           Inl e \<Rightarrow> Inl e
         | Inr (s, l') \<Rightarrow> Inr (\<lparr>Type = STRING, Literal = s\<rparr>, readChar l'))
      else if ch l = CHR 0x00 then Inr (\<lparr>Type = EOF, Literal = []\<rparr>, readChar l)
      else
        (case singleCharType (ch l) of
           Some tokenType \<Rightarrow> Inr (newToken tokenType (ch l), readChar l)
         | None \<Rightarrow>
            (if isChar (ch l) then
               (case readIdentifier l of
                  Inl e \<Rightarrow> Inl e
                | Inr (s, l') \<Rightarrow> Inr (\<lparr>Type = LookupIdent s, Literal = s\<rparr>, l'))
             else if isNum (ch l) then
               (case readInt l of
                  Inl e \<Rightarrow> Inl e
                | Inr (s, l') \<Rightarrow> Inr (\<lparr>Type = INT_t, Literal = s\<rparr>, l'))
             else Inr (newToken ILLEGAL (ch l), readChar l))))"


declare skipSpaces.simps [simp del]
declare readIdentifier_loop.simps [simp del]
declare readInt_loop.simps [simp del]
declare readString_loop.simps [simp del]

section \<open>The syntax tree (ast/ast.go)\<close>

text \<open>
  \<open>Expression\<close> and \<open>Statement\<close> are Go interfaces. A field of interface type is an
  \<open>option\<close>: \<open>None\<close> is the nil interface, \<open>Some n\<close> holds a node. The node types are
  pointers to structs, so an interface value can also hold a nil pointer of one of
  these types: \<open>NilExpression\<close> and \<open>NilStatement\<close>, tagged with the type. A field of
  pointer type (\<^verbatim>\<open>*Identifier\<close>, \<^verbatim>\<open>*BlockStatement\<close>) is an \<open>option\<close> too. The arguments
  of each constructor are the fields of the struct in the order of their declaration.
\<close>

datatype Identifier = Identifier (Identifier_Token: Token) (Identifier_Value: string)

datatype ExpressionKind =
    IdentifierK | IntegerLiteralK | StringLiteralK | PrefixExpressionK | InfixExpressionK
  | BooleanK | IfExpressionK | BlockStatementK | FunctionLiteralK | CallExpressionK
  | ArrayLiteralK | IndexExpressionK

datatype StatementKind = LetStatementK | ReturnStatementK | ExpressionStatementK

datatype Expression =
    IdentifierExpr Identifier
  | IntegerLiteral Token "64 word"
  | StringLiteral Token string
  | PrefixExpression Token string "Expression option"
  | InfixExpression Token "Expression option" string "Expression option"
  | Boolean Token bool
  | IfExpression Token "Expression option" "BlockStatement option" "BlockStatement option"
  | BlockExpr BlockStatement
  | FunctionLiteral Token "Identifier option list" "BlockStatement option"
  | CallExpression Token "Expression option" "Expression option list"
  | ArrayLiteral Token "Expression option list"
  | IndexExpression Token "Expression option" "Expression option"
  | NilExpression ExpressionKind
and Statement =
    LetStatement Token "Identifier option" "Expression option"
  | ReturnStatement Token "Expression option"
  | ExpressionStatement Token "Expression option"
  | NilStatement StatementKind
and BlockStatement =
    BlockStatement Token "Statement option list"

record Program =
  Statements :: "Statement option list"

text \<open>
  A method call on a nil interface or through a nil pointer panics; every \<open>String\<close>
  method reads a field of its receiver first.
\<close>

definition deref :: "(error + 'a) option \<Rightarrow> error + 'a" where
  "deref r = (case r of None \<Rightarrow> Inl NilDereference | Some x \<Rightarrow> x)"

text \<open>The results of a loop over a slice, up to the first panic.\<close>

fun collect :: "(error + 'a) list \<Rightarrow> error + 'a list" where
  "collect [] = Inr []"
| "collect (Inl e # rs) = Inl e"
| "collect (Inr x # rs) = (case collect rs of Inl e \<Rightarrow> Inl e | Inr xs \<Rightarrow> Inr (x # xs))"

text \<open>\<^verbatim>\<open>strings.Join\<close>.\<close>

fun Join :: "string list \<Rightarrow> string \<Rightarrow> string" where
  "Join [] sep = []"
| "Join [x] sep = x"
| "Join (x # y # ys) sep = x @ sep @ Join (y # ys) sep"

definition Identifier_String :: "Identifier option \<Rightarrow> error + string" where
  "Identifier_String i = deref (map_option (\<lambda>x. Inr (Identifier_Value x)) i)"

primrec Expression_String :: "Expression \<Rightarrow> error + string"
  and Statement_String :: "Statement \<Rightarrow> error + string"
  and BlockStatement_String :: "BlockStatement \<Rightarrow> error + string"
where
  "Expression_String (IdentifierExpr i) = Inr (Identifier_Value i)"
| "Expression_String (IntegerLiteral tok v) = Inr (Literal tok)"
| "Expression_String (StringLiteral tok v) = Inr (Literal tok)"
| "Expression_String (PrefixExpression tok operator right) =
     (case deref (map_option Expression_String right) of
        Inl e \<Rightarrow> Inl e
      | Inr r \<Rightarrow> Inr (''('' @ operator @ r @ '')''))"
| "Expression_String (InfixExpression tok left operator right) =
     (case deref (map_option Expression_String left) of
        Inl e \<Rightarrow> Inl e
      | Inr lft \<Rightarrow>
         (case deref (map_option Expression_String right) of
            Inl e \<Rightarrow> Inl e
          | Inr r \<Rightarrow> Inr (''('' @ lft @ '' '' @ operator @ '' '' @ r @ '')'')))"
| "Expression_String (Boolean tok v) = Inr (Literal tok)"
| "Expression_String (IfExpression tok condition consequence alternative) =
     (case deref (map_option Expression_String condition) of
        Inl e \<Rightarrow> Inl e
      | Inr c \<Rightarrow>
         (case deref (map_option BlockStatement_String consequence) of
            Inl e \<Rightarrow> Inl e
          | Inr cons \<Rightarrow>
             (case map_option BlockStatement_String alternative of
                None \<Rightarrow> Inr (''if'' @ c @ '' '' @ cons)
              | Some (Inl e) \<Rightarrow> Inl e
              | Some (Inr alt) \<Rightarrow> Inr (''if'' @ c @ '' '' @ cons @ ''else '' @ alt))))"
| "Expression_String (BlockExpr b) = BlockStatement_String b"
| "Expression_String (FunctionLiteral tok parameters body) =
     (case collect (map Identifier_String parameters) of
        Inl e \<Rightarrow> Inl e
      | Inr params \<Rightarrow>
         (case deref (map_option BlockStatement_String body) of
            Inl e \<Rightarrow> Inl e
          | Inr b \<Rightarrow> Inr (Literal tok @ ''('' @ Join params '', '' @ '')'' @ b)))"
| "Expression_String (CallExpression tok function arguments) =
     (case collect (map deref (map (map_option Expression_String) arguments)) of
        Inl e \<Rightarrow> Inl e
      | Inr args \<Rightarrow> Inr (Literal tok @ ''('' @ Join args '', '' @ '')''))"
| "Expression_String (ArrayLiteral tok elements) =
     (case collect (map deref (map (map_option Expression_String) elements)) of
        Inl e \<Rightarrow> Inl e
      | Inr els \<Rightarrow> Inr (''['' @ Join els '', '' @ '']''))"
| "Expression_String (IndexExpression tok left index) =
     (case deref (map_option Expression_String left) of
        Inl e \<Rightarrow> Inl e
      | Inr lft \<Rightarrow>
         (case deref (map_option Expression_String index) of
            Inl e \<Rightarrow> Inl e
          | Inr i \<Rightarrow> Inr (''('' @ lft @ ''['' @ i @ ''])'')))"
| "Expression_String (NilExpression k) = Inl NilDereference"
| "Statement_String (LetStatement tok name v) =
     (case Identifier_String name of
        Inl e \<Rightarrow> Inl e
      | Inr n \<Rightarrow>
         (case map_option Expression_String v of
            None \<Rightarrow> Inr (Literal tok @ '' '' @ n @ '' = '' @ '';'')
          | Some (Inl e) \<Rightarrow> Inl e
          | Some (Inr x) \<Rightarrow> Inr (Literal tok @ '' '' @ n @ '' = '' @ x @ '';'')))"
| "Statement_String (ReturnStatement tok v) =
     (case map_option Expression_String v of
        None \<Rightarrow> Inr (Literal tok @ '' '' @ '';'')
      | Some (Inl e) \<Rightarrow> Inl e
      | Some (Inr x) \<Rightarrow> Inr (Literal tok @ '' '' @ x @ '';''))"
| "Statement_String (ExpressionStatement tok v) =
     (case map_option Expression_String v of
        None \<Rightarrow> Inr []
      | Some r \<Rightarrow> r)"
| "Statement_String (NilStatement k) = Inl NilDereference"
| "BlockStatement_String (BlockStatement tok statements) =
     (case collect (map deref (map (map_option Statement_String) statements)) of
        Inl e \<Rightarrow> Inl e
      | Inr ss \<Rightarrow> Inr (concat ss))"

definition Program_String :: "Program \<Rightarrow> error + string" where
  "Program_String p =
     (case collect (map deref (map (map_option Statement_String) (Statements p))) of
        Inl e \<Rightarrow> Inl e
      | Inr ss \<Rightarrow> Inr (concat ss))"

section \<open>The parser (parser/parser.go)\<close>

text \<open>
  The handlers that \<open>New\<close> registers are method values of the parser; the only one
  is \<open>parseIdentifier\<close>. \<open>infixParseFns\<close> is never assigned and \<open>registerInfix\<close> is
  never called, so the parser has the nil map for it, which reads as the empty one.
  The field \<^verbatim>\<open>l\<close> is \<open>lexer\<close>.
\<close>

datatype prefixParseFn = parseIdentifier_fn

typedecl infixParseFn

record Parser =
  lexer :: Lexer
  curToken :: Token
  peekToken :: Token
  errors :: "string list"
  prefixParseFns :: "TokenType \<rightharpoonup> prefixParseFn"
  infixParseFns :: "TokenType \<rightharpoonup> infixParseFn"

definition LOWEST :: nat where "LOWEST = 1"
definition EQUALS :: nat where "EQUALS = 2"
definition LESSGREATER :: nat where "LESSGREATER = 3"
definition SUM_prec :: nat where "SUM_prec = 4"
definition PRODUCT :: nat where "PRODUCT = 5"
definition PREFIX :: nat where "PREFIX = 6"
definition CALL :: nat where "CALL = 7"

text \<open>
  \<open>peekError\<close> formats the two categories with \<^verbatim>\<open>%s\<close>. How a \<open>TokenType\<close> prints is
  decided in the missing package \<^verbatim>\<open>token\<close>; it is the parameter \<open>nm\<close> of the parser's
  functions.
\<close>

definition peekError :: "(TokenType \<Rightarrow> string) \<Rightarrow> TokenType \<Rightarrow> Parser \<Rightarrow> Parser" where
  "peekError nm t p =
     p\<lparr>errors := errors p @
        [''expected next token to be '' @ nm t @ '', got '' @ nm (Type (peekToken p)) @ '' instead'']\<rparr>"

definition parser_NextToken :: "Parser \<Rightarrow> error + Parser" where
  "parser_NextToken p =
     (case lexer_NextToken (lexer p) of
        Inl e \<Rightarrow> Inl e
      | Inr (tok, l') \<Rightarrow> Inr (p\<lparr>curToken := peekToken p, peekToken := tok, lexer := l'\<rparr>))"

text \<open>
  \<open>New\<close> calls \<open>NextToken\<close> twice on a parser whose tokens are zero values; the two
  calls overwrite both, so the parser is built from the two tokens read.
\<close>

definition registerPrefix :: "TokenType \<Rightarrow> prefixParseFn \<Rightarrow> Parser \<Rightarrow> Parser" where
  "registerPrefix tokenType fn p = p\<lparr>prefixParseFns := (prefixParseFns p)(tokenType \<mapsto> fn)\<rparr>"

definition parser_New :: "Lexer \<Rightarrow> error + Parser" where
  "parser_New l0 =
     (case lexer_NextToken l0 of
        Inl e \<Rightarrow> Inl e
      | Inr (tok1, l1) \<Rightarrow>
         (case lexer_NextToken l1 of
            Inl e \<Rightarrow> Inl e
          | Inr (tok2, l2) \<Rightarrow>
              Inr (registerPrefix IDENT parseIdentifier_fn
                \<lparr>lexer = l2, curToken = tok1, peekToken = tok2, errors = [],
                 prefixParseFns = Map.empty, infixParseFns = Map.empty\<rparr>)))"

definition curTokenIs :: "Parser \<Rightarrow> TokenType \<Rightarrow> bool" where
  "curTokenIs p t \<longleftrightarrow> Type (curToken p) = t"

definition peekTokenIs :: "Parser \<Rightarrow> TokenType \<Rightarrow> bool" where
  "peekTokenIs p t \<longleftrightarrow> Type (peekToken p) = t"

definition expectPeek :: "(TokenType \<Rightarrow> string) \<Rightarrow> TokenType \<Rightarrow> Parser \<Rightarrow> error + (bool \<times> Parser)" where
  "expectPeek nm t p =
     (if peekTokenIs p t then
        (case parser_NextToken p of Inl e \<Rightarrow> Inl e | Inr p' \<Rightarrow> Inr (True, p'))
      else Inr (False, peekError nm t p))"

definition parseIdentifier :: "Parser \<Rightarrow> Expression option \<times> Parser" where
  "parseIdentifier p = (Some (IdentifierExpr (Identifier (curToken p) (Literal (curToken p)))), p)"

fun apply_prefixParseFn :: "prefixParseFn \<Rightarrow> Parser \<Rightarrow> Expression option \<times> Parser" where
  "apply_prefixParseFn parseIdentifier_fn p = parseIdentifier p"

definition parseExpression :: "nat \<Rightarrow> Parser \<Rightarrow> Expression option \<times> Parser" where
  "parseExpression precedence p =
     (case prefixParseFns p (Type (curToken p)) of
        None \<Rightarrow> (None, p)
      | Some leftExp \<Rightarrow> apply_prefixParseFn leftExp p)"

text \<open>
  The loop \<^verbatim>\<open>for !p.expectPeek(token.SEMICOLON) { p.NextToken() }\<close> of both
  \<open>ParseLetStatment\<close> and \<open>ParseReturnStatement\<close>. It has no exit other than a
  semicolon in \<open>peekToken\<close>, so it need not return: \<open>None\<close> is the run that never ends.
\<close>

partial_function (option) expectSemicolon_loop ::
  "(TokenType \<Rightarrow> string) \<Rightarrow> Parser \<Rightarrow> (error + Parser) option"
where
  "expectSemicolon_loop nm p =
     (case expectPeek nm SEMICOLON p of
        Inl e \<Rightarrow> Some (Inl e)
      | Inr (ok, p1) \<Rightarrow>
          if ok then Some (Inr p1)
          else (case parser_NextToken p1 of
                  Inl e \<Rightarrow> Some (Inl e)
                | Inr p2 \<Rightarrow> expectSemicolon_loop nm p2))"

text \<open>
  A statement parser returns a pointer; \<open>None\<close> is the nil pointer. \<open>ParseStatement\<close>
  converts the pointer to the interface \<open>Statement\<close>, and a nil pointer becomes an
  interface value that is not nil.
\<close>

type_synonym LetStatement_ptr = "(Token \<times> Identifier option \<times> Expression option) option"
type_synonym ReturnStatement_ptr = "(Token \<times> Expression option) option"
type_synonym ExpressionStatement_ptr = "(Token \<times> Expression option) option"

definition ParseLetStatment ::
  "(TokenType \<Rightarrow> string) \<Rightarrow> Parser \<Rightarrow> (error + (LetStatement_ptr \<times> Parser)) option"
where
  "ParseLetStatment nm p =
     (let tok = curToken p in
      case expectPeek nm IDENT p of
        Inl e \<Rightarrow> Some (Inl e)
      | Inr (ok1, p1) \<Rightarrow>
          if \<not> ok1 then Some (Inr (None, p1))
          else
            (let name = Identifier (curToken p1) (Literal (curToken p1)) in
             case expectPeek nm ASSIGN p1 of
               Inl e \<Rightarrow> Some (Inl e)
             | Inr (ok2, p2) \<Rightarrow>
                 if \<not> ok2 then Some (Inr (None, p2))
                 else
                   (case expectSemicolon_loop nm p2 of
                      None \<Rightarrow> None
                    | Some (Inl e) \<Rightarrow> Some (Inl e)
                    | Some (Inr p3) \<Rightarrow> Some (Inr (Some (tok, Some name, None), p3)))))"

definition ParseReturnStatement ::
  "(TokenType \<Rightarrow> string) \<Rightarrow> Parser \<Rightarrow> (error + (ReturnStatement_ptr \<times> Parser)) option"
where
  "ParseReturnStatement nm p =
     (let tok = curToken p in
      case parser_NextToken p of
        Inl e \<Rightarrow> Some (Inl e)
      | Inr p1 \<Rightarrow>
          (case expectSemicolon_loop nm p1 of
             None \<Rightarrow> None
           | Some (Inl e) \<Rightarrow> Some (Inl e)
           | Some (Inr p2) \<Rightarrow> Some (Inr (Some (tok, None), p2))))"

definition ParseExpressionStatement :: "Parser \<Rightarrow> error + (ExpressionStatement_ptr \<times> Parser)" where
  "ParseExpressionStatement p =
     (let tok = curToken p;
          (expression, p1) = parseExpression LOWEST p
      in if peekTokenIs p1 SEMICOLON then
           (case parser_NextToken p1 of
              Inl e \<Rightarrow> Inl e
            | Inr p2 \<Rightarrow> Inr (Some (tok, expression), p2))
         else Inr (Some (tok, expression), p1))"

definition Statement_of_LetStatement :: "LetStatement_ptr \<Rightarrow> Statement option" where
  "Statement_of_LetStatement ptr =
     (case ptr of
        None \<Rightarrow> Some (NilStatement LetStatementK)
      | Some (tok, name, v) \<Rightarrow> Some (LetStatement tok name v))"

definition Statement_of_ReturnStatement :: "ReturnStatement_ptr \<Rightarrow> Statement option" where
  "Statement_of_ReturnStatement ptr =
     (case ptr of
        None \<Rightarrow> Some (NilStatement ReturnStatementK)
      | Some (tok, v) \<Rightarrow> Some (ReturnStatement tok v))"

definition Statement_of_ExpressionStatement :: "ExpressionStatement_ptr \<Rightarrow> Statement option" where
  "Statement_of_ExpressionStatement ptr =
     (case ptr of
        None \<Rightarrow> Some (NilStatement ExpressionStatementK)
      | Some (tok, v) \<Rightarrow> Some (ExpressionStatement tok v))"

definition ParseStatement ::
  "(TokenType \<Rightarrow> string) \<Rightarrow> Parser \<Rightarrow> (error + (Statement option \<times> Parser)) option"
where
  "ParseStatement nm p =
     (if Type (curToken p) = LET then
        map_option (map_sum id (map_prod Statement_of_LetStatement id)) (ParseLetStatment nm p)
      else if Type (curToken p) = RETURN then
        map_option (map_sum id (map_prod Statement_of_ReturnStatement id))
          (ParseReturnStatement nm p)
      else
        Some (map_sum id (map_prod Statement_of_ExpressionStatement id)
          (ParseExpressionStatement p)))"

text \<open>
  The loop of \<open>ParseProgram\<close>, with the statements appended so far. The test
  \<^verbatim>\<open>stmt != nil\<close> is on the interface value.
\<close>

partial_function (option) ParseProgram_loop ::
  "(TokenType \<Rightarrow> string) \<Rightarrow> Statement option list \<Rightarrow> Parser \<Rightarrow> (error + (Program \<times> Parser)) option"
where
  "ParseProgram_loop nm stmts p =
     (if curTokenIs p EOF then Some (Inr (\<lparr>Statements = stmts\<rparr>, p))
      else
        (case ParseStatement nm p of
           None \<Rightarrow> None
         | Some (Inl e) \<Rightarrow> Some (Inl e)
         | Some (Inr (stmt, p1)) \<Rightarrow>
             (case parser_NextToken p1 of
                Inl e \<Rightarrow> Some (Inl e)
              | Inr p2 \<Rightarrow>
                  ParseProgram_loop nm (if stmt \<noteq> None then stmts @ [stmt] else stmts) p2)))"

definition ParseProgram ::
  "(TokenType \<Rightarrow> string) \<Rightarrow> Parser \<Rightarrow> (error + (Program \<times> Parser)) option"
where
  "ParseProgram nm p = ParseProgram_loop nm [] p"

text \<open>A whole run: lexer, parser and program from a source text.\<close>

definition parse_text ::
  "(TokenType \<Rightarrow> string) \<Rightarrow> string \<Rightarrow> (error + (Program \<times> Parser)) option"
where
  "parse_text nm src =
     (case parser_New (lexer_New src) of
        Inl e \<Rightarrow> Some (Inl e)
      | Inr p \<Rightarrow> ParseProgram nm p)"

section \<open>Runs and observations\<close>

text \<open>
  The lexer that stands at index \<open>i\<close> of the input \<open>s\<close>: every lexer that \<open>lexer_New\<close>
  and \<open>readChar\<close> produce has this form.
\<close>

definition lexer_at :: "string \<Rightarrow> nat \<Rightarrow> Lexer" where
  "lexer_at s i =
     \<lparr>input = s, position = i, readPosition = i + 1,
      ch = (if i < length s then s ! i else CHR 0x00)\<rparr>"

text \<open>\<open>n\<close> calls of \<open>NextToken\<close> in a row, with the tokens they return.\<close>

fun NextToken_n :: "nat \<Rightarrow> Lexer \<Rightarrow> error + (Token list \<times> Lexer)" where
  "NextToken_n 0 l = Inr ([], l)"
| "NextToken_n (Suc n) l =
     (case lexer_NextToken l of
        Inl e \<Rightarrow> Inl e
      | Inr (tok, l') \<Rightarrow>
          (case NextToken_n n l' of
             Inl e \<Rightarrow> Inl e
           | Inr (toks, l'') \<Rightarrow> Inr (tok # toks, l'')))"

definition EOF_token :: Token where
  "EOF_token = \<lparr>Type = EOF, Literal = []\<rparr>"

text \<open>The token of a call of \<open>NextToken\<close>, without the lexer.\<close>

definition token_of :: "error + (Token \<times> Lexer) \<Rightarrow> error + Token" where
  "token_of r = (case r of Inl e \<Rightarrow> Inl e | Inr (tok, l') \<Rightarrow> Inr tok)"

text \<open>
  Modelled from the spec: the names of the categories as the spec lists them. The strings
  that package \<^verbatim>\<open>token\<close> gives them are missing from the sources. The general theorems
  below hold for every naming \<open>nm\<close>; the closed ones use this one.
\<close>

fun category_name :: "TokenType \<Rightarrow> string" where
  "category_name IDENT = ''IDENT''"
| "category_name INT_t = ''INT''"
| "category_name STRING = ''STRING''"
| "category_name ASSIGN = ''ASSIGN''"
| "category_name PLUS = ''PLUS''"
| "category_name MINUS = ''MINUS''"
| "category_name ASTERISK = ''ASTERISK''"
| "category_name SLASH = ''SLASH''"
| "category_name BANG = ''BANG''"
| "category_name EQ = ''EQ''"
| "category_name NOT_EQ = ''NOT_EQ''"
| "category_name LT = ''LT''"
| "category_name GT = ''GT''"
| "category_name LPAREN = ''LPAREN''"
| "category_name RPAREN = ''RPAREN''"
| "category_name LBRACE = ''LBRACE''"
| "category_name RBRACE = ''RBRACE''"
| "category_name LBRACKET = ''LBRACKET''"
| "category_name RBRACKET = ''RBRACKET''"
| "category_name COMMA = ''COMMA''"
| "category_name SEMICOLON = ''SEMICOLON''"
| "category_name LET = ''LET''"
| "category_name RETURN = ''RETURN''"
| "category_name FUNCTION = ''FUNCTION''"
| "category_name IF = ''IF''"
| "category_name ELSE = ''ELSE''"
| "category_name TRUE = ''TRUE''"
| "category_name FALSE = ''FALSE''"
| "category_name EOF = ''EOF''"
| "category_name ILLEGAL = ''ILLEGAL''"

text \<open>What a caller of \<open>ParseProgram\<close> observes: the statements, the errors, the rendering.\<close>

definition parse_statements ::
  "(error + (Program \<times> Parser)) option \<Rightarrow> (error + Statement option list) option"
where
  "parse_statements r =
     map_option (\<lambda>x. case x of Inl e \<Rightarrow> Inl e | Inr (prog, p) \<Rightarrow> Inr (Statements prog)) r"

definition parse_errors ::
  "(error + (Program \<times> Parser)) option \<Rightarrow> (error + string list) option"
where
  "parse_errors r =
     map_option (\<lambda>x. case x of Inl e \<Rightarrow> Inl e | Inr (prog, p) \<Rightarrow> Inr (errors p)) r"

definition rendered ::
  "(error + (Program \<times> Parser)) option \<Rightarrow> (error + string) option"
where
  "rendered r =
     map_option (\<lambda>x. case x of Inl e \<Rightarrow> Inl e | Inr (prog, p) \<Rightarrow> Program_String prog) r"

text \<open>
  \<open>parseExpression\<close> on the parser that \<open>New\<close> builds for a source text: the expression
  and the parser's errors afterwards.
\<close>

definition parseExpression_on :: "string \<Rightarrow> error + (Expression option \<times> string list)" where
  "parseExpression_on src =
     (case parser_New (lexer_New src) of
        Inl e \<Rightarrow> Inl e
      | Inr p \<Rightarrow> Inr (fst (parseExpression LOWEST p), errors (snd (parseExpression LOWEST p))))"

text \<open>\<open>ParseLetStatment\<close> on the parser that \<open>New\<close> builds: the pointer and the errors.\<close>

definition ParseLetStatment_on ::
  "(TokenType \<Rightarrow> string) \<Rightarrow> string \<Rightarrow> (error + (LetStatement_ptr \<times> string list)) option"
where
  "ParseLetStatment_on nm src =
     (case parser_New (lexer_New src) of
        Inl e \<Rightarrow> Some (Inl e)
      | Inr p \<Rightarrow>
          map_option (\<lambda>x. case x of Inl e \<Rightarrow> Inl e | Inr (ptr, p') \<Rightarrow> Inr (ptr, errors p'))
            (ParseLetStatment nm p))"

text \<open>
  A parser whose lexer has passed the end of its input and whose \<open>peekToken\<close> is \<open>EOF\<close>.
\<close>

definition at_end_of_input :: "Parser \<Rightarrow> bool" where
  "at_end_of_input p \<longleftrightarrow>
     Type (peekToken p) = EOF \<and>
     lexer p = lexer_at (input (lexer p)) (position (lexer p)) \<and>
     length (input (lexer p)) \<le> position (lexer p)"

text \<open>
  The literal of a keyword token that the lexer made is the keyword; the statements
  that the parser builds take their token from such a token.
\<close>

definition keyword_literal :: "Token \<Rightarrow> bool" where
  "keyword_literal t \<longleftrightarrow>
     (Type t = LET \<longrightarrow> Literal t = ''let'') \<and> (Type t = RETURN \<longrightarrow> Literal t = ''return'')"

definition lexed_tokens :: "Parser \<Rightarrow> bool" where
  "lexed_tokens p \<longleftrightarrow> keyword_literal (curToken p) \<and> keyword_literal (peekToken p)"

text \<open>
  A statement whose right-hand side was skipped: a let statement with a name and no
  value, rendered \<^verbatim>\<open>let <name> = ;\<close>, a return statement with no value, rendered
  \<^verbatim>\<open>return ;\<close>; nothing is said of the other statements.
\<close>

fun skipped_value :: "Statement option \<Rightarrow> bool" where
  "skipped_value (Some (LetStatement tok name v)) \<longleftrightarrow>
     v = None \<and>
     (case name of
        None \<Rightarrow> False
      | Some n \<Rightarrow>
          Statement_String (LetStatement tok name v)
            = Inr (''let '' @ Identifier_Value n @ '' = ;''))"
| "skipped_value (Some (ReturnStatement tok v)) \<longleftrightarrow>
     v = None \<and> Statement_String (ReturnStatement tok v) = Inr ''return ;''"
| "skipped_value st \<longleftrightarrow> True"

section \<open>Evaluation of runs on a given text\<close>

lemma lexer_New_at: "lexer_New s = lexer_at s 0"
  by (simp add: lexer_New_def readChar_def lexer_at_def)

lemma readChar_at: "readChar (lexer_at s i) = lexer_at s (i + 1)"
  by (simp add: readChar_def lexer_at_def)

lemma lexer_at_sel [simp]:
  "input (lexer_at s i) = s"
  "position (lexer_at s i) = i"
  "readPosition (lexer_at s i) = i + 1"
  "ch (lexer_at s i) = (if i < length s then s ! i else CHR 0x00)"
  by (simp_all add: lexer_at_def)

lemmas lex_eval =
  lexer_NextToken_def skipSpaces.simps readIdentifier_loop.simps readInt_loop.simps
  readString_loop.simps readIdentifier_def readInt_def readString_def twoCharToken_def
  singleCharType_def newToken_def string_of_byte_def isNum_def isChar_def isSpace_def slice_def
  peekChar_def readChar_at LookupIdent_def keyword_table_def Let_def

lemmas parse_eval =
  parse_text_def parser_New_def lexer_New_at registerPrefix_def ParseProgram_def
  ParseProgram_loop.simps ParseStatement_def ParseLetStatment_def ParseReturnStatement_def
  ParseExpressionStatement_def expectSemicolon_loop.simps expectPeek_def peekError_def
  parser_NextToken_def curTokenIs_def peekTokenIs_def parseExpression_def parseIdentifier_def
  Statement_of_LetStatement_def Statement_of_ReturnStatement_def
  Statement_of_ExpressionStatement_def

lemmas observe_eval =
  parse_statements_def parse_errors_def rendered_def Program_String_def deref_def
  parseExpression_on_def ParseLetStatment_on_def token_of_def Identifier_String_def

lemma apply_prefixParseFn_eq: "apply_prefixParseFn f p = parseIdentifier p"
  by (cases f) simp

section \<open>The loops of the lexer\<close>

lemma class_not_zero [simp]:
  "\<not> isSpace (CHR 0x00)" "\<not> isChar (CHR 0x00)" "\<not> isNum (CHR 0x00)"
  by (simp_all add: isSpace_def isChar_def isNum_def)

lemma skipSpaces_stop: "\<not> isSpace (ch l) \<Longrightarrow> skipSpaces l = l"
  by (subst skipSpaces.simps) simp

lemma skipSpaces_step: "isSpace (ch l) \<Longrightarrow> skipSpaces l = skipSpaces (readChar l)"
  by (subst skipSpaces.simps) simp

lemma skipSpaces_at:
  "\<exists>j. i \<le> j \<and> (j \<le> length s \<or> j = i) \<and> skipSpaces (lexer_at s i) = lexer_at s j
       \<and> \<not> isSpace (ch (lexer_at s j))"
proof (induction "length s - i" arbitrary: i)
  case 0
  then have "\<not> isSpace (ch (lexer_at s i))" by simp
  then have "skipSpaces (lexer_at s i) = lexer_at s i" by (rule skipSpaces_stop)
  with \<open>\<not> isSpace (ch (lexer_at s i))\<close> show ?case by (intro exI [of _ i]) simp
next
  case (Suc n)
  show ?case
  proof (cases "isSpace (ch (lexer_at s i))")
    case False
    then have "skipSpaces (lexer_at s i) = lexer_at s i" by (rule skipSpaces_stop)
    with False show ?thesis by (intro exI [of _ i]) simp
  next
    case True
    from Suc.hyps(2) have lt: "i < length s" and n: "n = length s - (i + 1)" by arith+
    from Suc.hyps(1) [OF n] obtain j where
      j: "i + 1 \<le> j" "j \<le> length s \<or> j = i + 1"
         "skipSpaces (lexer_at s (i + 1)) = lexer_at s j" "\<not> isSpace (ch (lexer_at s j))"
      by blast
    have "skipSpaces (lexer_at s i) = lexer_at s j"
      using skipSpaces_step [OF True] j(3) by (simp only: readChar_at)
    moreover have "i \<le> j" "j \<le> length s \<or> j = i" using j(1,2) lt by arith+
    ultimately show ?thesis using j(4) by blast
  qed
qed


lemma readIdentifier_loop_stop: "\<not> isChar (ch l) \<Longrightarrow> readIdentifier_loop l = l"
  by (subst readIdentifier_loop.simps) simp

lemma readIdentifier_loop_step: "isChar (ch l) \<Longrightarrow> readIdentifier_loop l = readIdentifier_loop (readChar l)"
  by (subst readIdentifier_loop.simps) simp

lemma readIdentifier_loop_at:
  "\<exists>j. i \<le> j \<and> (j \<le> length s \<or> j = i) \<and> (isChar (ch (lexer_at s i)) \<longrightarrow> i < j)
       \<and> readIdentifier_loop (lexer_at s i) = lexer_at s j"
proof (induction "length s - i" arbitrary: i)
  case 0
  then have no: "\<not> isChar (ch (lexer_at s i))" by simp
  then have "readIdentifier_loop (lexer_at s i) = lexer_at s i" by (rule readIdentifier_loop_stop)
  with no show ?case by (intro exI [of _ i]) simp
next
  case (Suc n)
  show ?case
  proof (cases "isChar (ch (lexer_at s i))")
    case False
    then have "readIdentifier_loop (lexer_at s i) = lexer_at s i" by (rule readIdentifier_loop_stop)
    with False show ?thesis by (intro exI [of _ i]) simp
  next
    case True
    from Suc.hyps(2) have lt: "i < length s" and n: "n = length s - (i + 1)" by arith+
    from Suc.hyps(1) [OF n] obtain j where
      j: "i + 1 \<le> j" "j \<le> length s \<or> j = i + 1"
         "readIdentifier_loop (lexer_at s (i + 1)) = lexer_at s j"
      by blast
    have "readIdentifier_loop (lexer_at s i) = lexer_at s j"
      using readIdentifier_loop_step [OF True] j(3) by (simp only: readChar_at)
    moreover have "i < j" "i \<le> j" "j \<le> length s \<or> j = i" using j(1,2) lt by arith+
    ultimately show ?thesis by blast
  qed
qed

lemma readInt_loop_stop: "\<not> isNum (ch l) \<Longrightarrow> readInt_loop l = l"
  by (subst readInt_loop.simps) simp

lemma readInt_loop_step: "isNum (ch l) \<Longrightarrow> readInt_loop l = readInt_loop (readChar l)"
  by (subst readInt_loop.simps) simp

lemma readInt_loop_at:
  "\<exists>j. i \<le> j \<and> (j \<le> length s \<or> j = i) \<and> (isNum (ch (lexer_at s i)) \<longrightarrow> i < j)
       \<and> readInt_loop (lexer_at s i) = lexer_at s j"
proof (induction "length s - i" arbitrary: i)
  case 0
  then have no: "\<not> isNum (ch (lexer_at s i))" by simp
  then have "readInt_loop (lexer_at s i) = lexer_at s i" by (rule readInt_loop_stop)
  with no show ?case by (intro exI [of _ i]) simp
next
  case (Suc n)
  show ?case
  proof (cases "isNum (ch (lexer_at s i))")
    case False
    then have "readInt_loop (lexer_at s i) = lexer_at s i" by (rule readInt_loop_stop)
    with False show ?thesis by (intro exI [of _ i]) simp
  next
    case True
    from Suc.hyps(2) have lt: "i < length s" and n: "n = length s - (i + 1)" by arith+
    from Suc.hyps(1) [OF n] obtain j where
      j: "i + 1 \<le> j" "j \<le> length s \<or> j = i + 1"
         "readInt_loop (lexer_at s (i + 1)) = lexer_at s j"
      by blast
    have "readInt_loop (lexer_at s i) = lexer_at s j"
      using readInt_loop_step [OF True] j(3) by (simp only: readChar_at)
    moreover have "i < j" "i \<le> j" "j \<le> length s \<or> j = i" using j(1,2) lt by arith+
    ultimately show ?thesis by blast
  qed
qed

lemma readString_loop_stop:
  "ch (lexer_at s (i + 1)) = CHR 0x22 \<or> ch (lexer_at s (i + 1)) = CHR 0x00
   \<Longrightarrow> readString_loop (lexer_at s i) = lexer_at s (i + 1)"
  by (subst readString_loop.simps) (simp add: readChar_at Let_def)

lemma readString_loop_step:
  "\<not> (ch (lexer_at s (i + 1)) = CHR 0x22 \<or> ch (lexer_at s (i + 1)) = CHR 0x00)
   \<Longrightarrow> readString_loop (lexer_at s i) = readString_loop (lexer_at s (i + 1))"
  by (subst readString_loop.simps) (simp add: readChar_at Let_def)

lemma readString_loop_at:
  "\<exists>j. i < j \<and> readString_loop (lexer_at s i) = lexer_at s j"
proof (induction "length s - i" arbitrary: i)
  case 0
  then have "ch (lexer_at s (i + 1)) = CHR 0x00" by simp
  then have "readString_loop (lexer_at s i) = lexer_at s (i + 1)"
    by (intro readString_loop_stop) simp
  then show ?case by (intro exI [of _ "i + 1"]) simp
next
  case (Suc n)
  show ?case
  proof (cases "ch (lexer_at s (i + 1)) = CHR 0x22 \<or> ch (lexer_at s (i + 1)) = CHR 0x00")
    case True
    then have "readString_loop (lexer_at s i) = lexer_at s (i + 1)"
      by (rule readString_loop_stop)
    then show ?thesis by (intro exI [of _ "i + 1"]) simp
  next
    case False
    from Suc.hyps(2) have n: "n = length s - (i + 1)" by arith
    from Suc.hyps(1) [OF n] obtain j where
      j: "i + 1 < j" "readString_loop (lexer_at s (i + 1)) = lexer_at s j"
      by blast
    have "readString_loop (lexer_at s i) = lexer_at s j"
      using readString_loop_step [OF False] j(2) by simp
    moreover have "i < j" using j(1) by arith
    ultimately show ?thesis by blast
  qed
qed

lemma LookupIdent_not_EOF: "LookupIdent x \<noteq> EOF"
  by (simp add: LookupIdent_def keyword_table_def)

lemma singleCharType_not_EOF: "singleCharType c = Some t \<Longrightarrow> t \<noteq> EOF"
  by (auto simp: singleCharType_def split: if_splits)

section \<open>One call of NextToken\<close>

lemma skipSpaces_not_space: "\<not> isSpace (ch (skipSpaces l))"
proof (induction l rule: skipSpaces.induct)
  case (1 l)
  show ?case
  proof (cases "isSpace (ch l)")
    case True
    with 1 show ?thesis by (simp add: skipSpaces_step)
  next
    case False
    then show ?thesis by (simp add: skipSpaces_stop)
  qed
qed

lemma NextToken_skip: "lexer_NextToken (skipSpaces l) = lexer_NextToken l"
  by (simp add: lexer_NextToken_def skipSpaces_stop [OF skipSpaces_not_space])

lemma peekChar_eq_at:
  "peekChar (lexer_at s k) = CHR ''='' \<Longrightarrow> k + 1 < length s"
  by (simp add: peekChar_def split: if_splits)

lemma twoCharToken_at:
  assumes "peekChar (lexer_at s k) = CHR ''=''"
  shows "twoCharToken t (lexer_at s k)
           = Inr (\<lparr>Type = t, Literal = take 2 (drop k s)\<rparr>, lexer_at s (k + 2))"
proof -
  from assms have "k + 1 < length s" by (rule peekChar_eq_at)
  then show ?thesis by (simp add: twoCharToken_def slice_def readChar_at)
qed

lemma readIdentifier_at:
  assumes "isChar (ch (lexer_at s k))"
  shows "\<exists>j lit. k < j \<and> readIdentifier (lexer_at s k) = Inr (lit, lexer_at s j)"
proof -
  from readIdentifier_loop_at [of k s] assms obtain j where
    j: "k < j" "j \<le> length s \<or> j = k" "readIdentifier_loop (lexer_at s k) = lexer_at s j"
    by blast
  then have "j \<le> length s" by arith
  with j(1,3) have "readIdentifier (lexer_at s k) = Inr (take (j - k) (drop k s), lexer_at s j)"
    by (simp add: readIdentifier_def slice_def)
  with j(1) show ?thesis by blast
qed

lemma readInt_at:
  assumes "isNum (ch (lexer_at s k))"
  shows "\<exists>j lit. k < j \<and> readInt (lexer_at s k) = Inr (lit, lexer_at s j)"
proof -
  from readInt_loop_at [of k s] assms obtain j where
    j: "k < j" "j \<le> length s \<or> j = k" "readInt_loop (lexer_at s k) = lexer_at s j"
    by blast
  then have "j \<le> length s" by arith
  with j(1,3) have "readInt (lexer_at s k) = Inr (take (j - k) (drop k s), lexer_at s j)"
    by (simp add: readInt_def slice_def)
  with j(1) show ?thesis by blast
qed

lemma readString_at:
  assumes "readString (lexer_at s k) = Inr (lit, l')"
  shows "\<exists>j. k < j \<and> l' = lexer_at s j"
proof -
  from readString_loop_at [of "k + 1" s] obtain j where
    j: "k + 1 < j" "readString_loop (lexer_at s (k + 1)) = lexer_at s j"
    by blast
  from assms j(2) have "l' = lexer_at s j"
    by (simp add: readString_def readChar_at Let_def split: sum.splits)
  moreover have "k < j" using j(1) by arith
  ultimately show ?thesis by blast
qed

lemma newToken_Type [simp]: "Type (newToken t c) = t"
  by (simp add: newToken_def)

lemma NextToken_eof:
  assumes "ch (lexer_at s k) = CHR 0x00"
  shows "lexer_NextToken (lexer_at s k) = Inr (EOF_token, lexer_at s (k + 1))"
proof -
  have "skipSpaces (lexer_at s k) = lexer_at s k"
    using assms by (intro skipSpaces_stop) simp
  then show ?thesis
    using assms by (simp add: lexer_NextToken_def Let_def EOF_token_def readChar_at)
qed

lemma NextToken_string:
  assumes "ch (lexer_at s k) = CHR 0x22"
    and "lexer_NextToken (lexer_at s k) = Inr (tok, l')"
  shows "Type tok = STRING \<and> (\<exists>j. k < j \<and> l' = lexer_at s j)"
proof -
  have sk: "skipSpaces (lexer_at s k) = lexer_at s k"
    using assms(1) by (intro skipSpaces_stop) (simp add: isSpace_def)
  from assms(2) obtain lit l1 where
    r: "readString (lexer_at s k) = Inr (lit, l1)" and
    t: "tok = \<lparr>Type = STRING, Literal = lit\<rparr>" and l: "l' = readChar l1"
    using assms(1) by (auto simp: lexer_NextToken_def Let_def sk split: sum.splits)
  from readString_at [OF r] obtain j where "k < j" "l1 = lexer_at s j" by blast
  with l have "l' = lexer_at s (j + 1)" "k < j + 1" by (simp_all add: readChar_at)
  with t show ?thesis by auto
qed

lemma NextToken_other:
  assumes ns: "\<not> isSpace (ch (lexer_at s k))"
    and nq: "ch (lexer_at s k) \<noteq> CHR 0x22"
    and nz: "ch (lexer_at s k) \<noteq> CHR 0x00"
  shows "\<exists>tok j. k < j \<and> Type tok \<noteq> EOF \<and> lexer_NextToken (lexer_at s k) = Inr (tok, lexer_at s j)"
proof -
  let ?L = "lexer_at s k"
  have sk: "skipSpaces ?L = ?L" using ns by (rule skipSpaces_stop)
  show ?thesis
  proof (cases "ch ?L = CHR ''=''")
    case True
    show ?thesis
    proof (cases "peekChar ?L = CHR ''=''")
      case p: True
      have "lexer_NextToken ?L = Inr (\<lparr>Type = EQ, Literal = take 2 (drop k s)\<rparr>, lexer_at s (k + 2))"
        using True p twoCharToken_at [OF p, of EQ] by (simp add: lexer_NextToken_def Let_def sk)
      then show ?thesis by (intro exI [of _ "\<lparr>Type = EQ, Literal = take 2 (drop k s)\<rparr>"] exI [of _ "k + 2"]) simp
    next
      case p: False
      have "lexer_NextToken ?L = Inr (newToken ASSIGN (ch ?L), lexer_at s (k + 1))"
        using True p by (simp add: lexer_NextToken_def Let_def sk readChar_at)
      then show ?thesis by (intro exI [of _ "newToken ASSIGN (ch ?L)"] exI [of _ "k + 1"]) simp
    qed
  next
    case ne: False
    show ?thesis
    proof (cases "ch ?L = CHR ''!''")
      case True
      show ?thesis
      proof (cases "peekChar ?L = CHR ''=''")
        case p: True
        have "lexer_NextToken ?L = Inr (\<lparr>Type = NOT_EQ, Literal = take 2 (drop k s)\<rparr>, lexer_at s (k + 2))"
          using True p twoCharToken_at [OF p, of NOT_EQ] by (simp add: lexer_NextToken_def Let_def sk)
        then show ?thesis by (intro exI [of _ "\<lparr>Type = NOT_EQ, Literal = take 2 (drop k s)\<rparr>"] exI [of _ "k + 2"]) simp
      next
        case p: False
        have "lexer_NextToken ?L = Inr (newToken BANG (ch ?L), lexer_at s (k + 1))"
          using True p by (simp add: lexer_NextToken_def Let_def sk readChar_at)
        then show ?thesis by (intro exI [of _ "newToken BANG (ch ?L)"] exI [of _ "k + 1"]) simp
      qed
    next
      case nb: False
      have unfold: "lexer_NextToken ?L =
        (case singleCharType (ch ?L) of
           Some tokenType \<Rightarrow> Inr (newToken tokenType (ch ?L), readChar ?L)
         | None \<Rightarrow>
            (if isChar (ch ?L) then
               (case readIdentifier ?L of
                  Inl e \<Rightarrow> Inl e
                | Inr (s, l') \<Rightarrow> Inr (\<lparr>Type = LookupIdent s, Literal = s\<rparr>, l'))
             else if isNum (ch ?L) then
               (case readInt ?L of
                  Inl e \<Rightarrow> Inl e
                | Inr (s, l') \<Rightarrow> Inr (\<lparr>Type = INT_t, Literal = s\<rparr>, l'))
             else Inr (newToken ILLEGAL (ch ?L), readChar ?L)))"
        using ne nb nq nz by (simp only: lexer_NextToken_def Let_def sk if_False)
      show ?thesis
      proof (cases "singleCharType (ch ?L)")
        case (Some t)
        then have "lexer_NextToken ?L = Inr (newToken t (ch ?L), lexer_at s (k + 1))"
          by (simp add: unfold readChar_at)
        moreover have "t \<noteq> EOF" using Some by (rule singleCharType_not_EOF)
        ultimately show ?thesis by (intro exI [of _ "newToken t (ch ?L)"] exI [of _ "k + 1"]) simp
      next
        case None
        show ?thesis
        proof (cases "isChar (ch ?L)")
          case True
          from readIdentifier_at [OF True] obtain j lit where
            j: "k < j" "readIdentifier ?L = Inr (lit, lexer_at s j)" by blast
          have "lexer_NextToken ?L = Inr (\<lparr>Type = LookupIdent lit, Literal = lit\<rparr>, lexer_at s j)"
            using None True j(2) by (simp add: unfold)
          with j(1) show ?thesis
            by (intro exI [of _ "\<lparr>Type = LookupIdent lit, Literal = lit\<rparr>"] exI [of _ j])
               (simp add: LookupIdent_not_EOF)
        next
          case nc: False
          show ?thesis
          proof (cases "isNum (ch ?L)")
            case True
            from readInt_at [OF True] obtain j lit where
              j: "k < j" "readInt ?L = Inr (lit, lexer_at s j)" by blast
            have "lexer_NextToken ?L = Inr (\<lparr>Type = INT_t, Literal = lit\<rparr>, lexer_at s j)"
              using None nc True j(2) by (simp add: unfold)
            with j(1) show ?thesis
              by (intro exI [of _ "\<lparr>Type = INT_t, Literal = lit\<rparr>"] exI [of _ j]) simp
          next
            case False
            have "lexer_NextToken ?L = Inr (newToken ILLEGAL (ch ?L), lexer_at s (k + 1))"
              using None nc False by (simp add: unfold readChar_at)
            then show ?thesis
              by (intro exI [of _ "newToken ILLEGAL (ch ?L)"] exI [of _ "k + 1"]) simp
          qed
        qed
      qed
    qed
  qed
qed

section \<open>Runs of NextToken\<close>

lemma ch_at_in_set: "ch (lexer_at s k) = c \<Longrightarrow> c \<noteq> CHR 0x00 \<Longrightarrow> c \<in> set s"
  by (auto split: if_splits)

lemma ch_at_zero:
  assumes "ch (lexer_at s k) = CHR 0x00" and "CHR 0x00 \<notin> set s"
  shows "length s \<le> k"
proof (rule ccontr)
  assume "\<not> length s \<le> k"
  then have lt: "k < length s" by arith
  with assms(1) have "s ! k = CHR 0x00" by simp
  with nth_mem [OF lt] assms(2) show False by simp
qed

lemma NextToken_step:
  assumes "lexer_NextToken (lexer_at s i) = Inr (tok, l')"
  shows "\<exists>j. i < j \<and> l' = lexer_at s j
           \<and> (Type tok = EOF \<longrightarrow> tok = EOF_token \<and> (CHR 0x00 \<notin> set s \<longrightarrow> length s < j))"
proof -
  from skipSpaces_at [of i s] obtain k where
    k: "i \<le> k" "skipSpaces (lexer_at s i) = lexer_at s k" "\<not> isSpace (ch (lexer_at s k))"
    by blast
  have eq: "lexer_NextToken (lexer_at s k) = Inr (tok, l')"
    using assms NextToken_skip [of "lexer_at s i"] k(2) by simp
  consider (str) "ch (lexer_at s k) = CHR 0x22" | (eof) "ch (lexer_at s k) = CHR 0x00"
    | (other) "ch (lexer_at s k) \<noteq> CHR 0x22" "ch (lexer_at s k) \<noteq> CHR 0x00"
    by blast
  then show ?thesis
  proof cases
    case str
    from NextToken_string [OF str eq] obtain j where
      "Type tok = STRING" "k < j" "l' = lexer_at s j" by blast
    with k(1) show ?thesis by (intro exI [of _ j]) simp
  next
    case eof
    from NextToken_eof [OF eof] eq have t: "tok = EOF_token" "l' = lexer_at s (k + 1)" by simp_all
    have "CHR 0x00 \<notin> set s \<longrightarrow> length s < k + 1"
      using ch_at_zero [OF eof] by auto
    with t k(1) show ?thesis by (intro exI [of _ "k + 1"]) simp
  next
    case other
    from NextToken_other [OF k(3) other] eq obtain j where
      "k < j" "Type tok \<noteq> EOF" "l' = lexer_at s j" by auto
    with k(1) show ?thesis by (intro exI [of _ j]) simp
  qed
qed

lemma NextToken_total:
  assumes "CHR 0x22 \<notin> set s"
  shows "\<exists>tok j. lexer_NextToken (lexer_at s i) = Inr (tok, lexer_at s j)"
proof -
  from skipSpaces_at [of i s] obtain k where
    k: "i \<le> k" "skipSpaces (lexer_at s i) = lexer_at s k" "\<not> isSpace (ch (lexer_at s k))"
    by blast
  have eq: "lexer_NextToken (lexer_at s i) = lexer_NextToken (lexer_at s k)"
    using NextToken_skip [of "lexer_at s i"] k(2) by simp
  have nq: "ch (lexer_at s k) \<noteq> CHR 0x22"
    using assms ch_at_in_set [of s k "CHR 0x22"] by auto
  show ?thesis
  proof (cases "ch (lexer_at s k) = CHR 0x00")
    case True
    from NextToken_eof [OF True] eq show ?thesis by auto
  next
    case False
    from NextToken_other [OF k(3) nq False] eq show ?thesis by auto
  qed
qed

lemma NextToken_end:
  "length s \<le> i \<Longrightarrow> lexer_NextToken (lexer_at s i) = Inr (EOF_token, lexer_at s (i + 1))"
  by (intro NextToken_eof) simp

lemma NextToken_n_end:
  "length s \<le> i \<Longrightarrow> NextToken_n n (lexer_at s i) = Inr (replicate n EOF_token, lexer_at s (i + n))"
proof (induction n arbitrary: i)
  case 0
  then show ?case by simp
next
  case (Suc n)
  from Suc.prems have "length s \<le> i + 1" by arith
  from Suc.IH [OF this] NextToken_end [OF Suc.prems] show ?case by simp
qed

lemma NextToken_n_total:
  "CHR 0x22 \<notin> set s \<Longrightarrow> \<exists>toks l'. NextToken_n n (lexer_at s i) = Inr (toks, l')"
proof (induction n arbitrary: i)
  case 0
  then show ?case by simp
next
  case (Suc n)
  from NextToken_total [OF Suc.prems, of i] obtain tok j where
    t: "lexer_NextToken (lexer_at s i) = Inr (tok, lexer_at s j)" by blast
  from Suc.IH [OF Suc.prems, of j] obtain toks l' where
    "NextToken_n n (lexer_at s j) = Inr (toks, l')" by blast
  with t show ?case by simp
qed

lemma NextToken_n_tokens:
  assumes "NextToken_n n (lexer_at s i) = Inr (toks, l')"
  shows "length toks = n
    \<and> (\<forall>m. length s \<le> i + m \<and> m < n \<longrightarrow> toks ! m = EOF_token)
    \<and> (CHR 0x00 \<notin> set s \<longrightarrow>
         (\<forall>m m'. m < m' \<and> m' < n \<and> Type (toks ! m) = EOF \<longrightarrow> toks ! m' = EOF_token))"
  using assms
proof (induction n arbitrary: i toks)
  case 0
  then show ?case by simp
next
  case (Suc n)
  from Suc.prems obtain tok l1 toks' where
    t: "lexer_NextToken (lexer_at s i) = Inr (tok, l1)" and
    r: "NextToken_n n l1 = Inr (toks', l')" and
    ts: "toks = tok # toks'"
    by (auto split: sum.splits)
  from NextToken_step [OF t] obtain j where
    j: "i < j" "l1 = lexer_at s j"
       "Type tok = EOF \<longrightarrow> tok = EOF_token \<and> (CHR 0x00 \<notin> set s \<longrightarrow> length s < j)"
    by blast
  from Suc.IH [of j toks'] r j(2) have
    ih: "length toks' = n"
        "\<And>m. length s \<le> j + m \<Longrightarrow> m < n \<Longrightarrow> toks' ! m = EOF_token"
        "\<And>m m'. CHR 0x00 \<notin> set s \<Longrightarrow> m < m' \<Longrightarrow> m' < n \<Longrightarrow> Type (toks' ! m) = EOF
                  \<Longrightarrow> toks' ! m' = EOF_token"
    by auto
  have a: "length toks = Suc n" using ts ih(1) by simp
  have b: "toks ! m = EOF_token" if "length s \<le> i + m" "m < Suc n" for m
  proof (cases m)
    case 0
    with that have "length s \<le> i" by simp
    from NextToken_end [OF this] t ts 0 show ?thesis by simp
  next
    case (Suc m0)
    with that j(1) have "length s \<le> j + m0" "m0 < n" by arith+
    from ih(2) [OF this] ts Suc show ?thesis by simp
  qed
  have c: "toks ! m' = EOF_token"
    if "CHR 0x00 \<notin> set s" "m < m'" "m' < Suc n" "Type (toks ! m) = EOF" for m m'
  proof (cases m)
    case 0
    with that ts have "Type tok = EOF" by simp
    with j(3) that(1) have "length s \<le> j" by simp
    from NextToken_n_end [OF this, of n] r j(2) have "toks' = replicate n EOF_token" by simp
    moreover from that(2,3) 0 obtain k where "m' = Suc k" "k < n" by (cases m') auto
    ultimately show ?thesis using ts by simp
  next
    case (Suc m0)
    with that obtain k where k: "m' = Suc k" "m0 < k" "k < n" by (cases m') auto
    from that(4) ts Suc have "Type (toks' ! m0) = EOF" by simp
    from ih(3) [OF that(1) k(2,3) this] ts k(1) show ?thesis by simp
  qed
  from a b c show ?case by blast
qed

section \<open>Tokens of the lexer\<close>

lemma LookupIdent_LET: "LookupIdent x = LET \<Longrightarrow> x = ''let''"
  by (simp add: LookupIdent_def keyword_table_def split: if_splits)

lemma LookupIdent_RETURN: "LookupIdent x = RETURN \<Longrightarrow> x = ''return''"
  by (simp add: LookupIdent_def keyword_table_def split: if_splits)

lemma singleCharType_not_keyword: "singleCharType c = Some t \<Longrightarrow> t \<noteq> LET \<and> t \<noteq> RETURN"
  by (auto simp: singleCharType_def split: if_splits)

lemma keyword_literal_newToken: "t \<noteq> LET \<Longrightarrow> t \<noteq> RETURN \<Longrightarrow> keyword_literal (newToken t c)"
  by (simp add: keyword_literal_def newToken_def)

lemma keyword_literal_twoChar:
  "t \<noteq> LET \<Longrightarrow> t \<noteq> RETURN \<Longrightarrow> twoCharToken t l = Inr (tok, l') \<Longrightarrow> keyword_literal tok"
  by (auto simp: keyword_literal_def twoCharToken_def split: sum.splits)

lemma keyword_literal_ident: "keyword_literal \<lparr>Type = LookupIdent x, Literal = x\<rparr>"
  by (auto simp: keyword_literal_def dest: LookupIdent_LET LookupIdent_RETURN)

lemma lexer_NextToken_keyword_literal:
  assumes "lexer_NextToken l0 = Inr (tok, l')"
  shows "keyword_literal tok"
  using assms
  by (auto simp: lexer_NextToken_def Let_def keyword_literal_newToken keyword_literal_ident
        dest: singleCharType_not_keyword keyword_literal_twoChar [rotated 2]
        split: if_splits sum.splits option.splits prod.splits)
     (simp_all add: keyword_literal_def)

section \<open>Expressions\<close>

text \<open>
  C1, as the spec states it: \<open>parseExpression\<close> climbs precedences, so that
  \<^verbatim>\<open>a + b + c\<close> renders as \<^verbatim>\<open>((a + b) + c)\<close> and \<^verbatim>\<open>a + b * c\<close> as \<^verbatim>\<open>(a + (b * c))\<close>.
  The parser has no infix loop: the text \<^verbatim>\<open>a + b + c\<close> is parsed into one expression
  statement per token, those of the operators without an expression, and the program
  renders as \<^verbatim>\<open>abc\<close>.
\<close>

theorem parse_a_plus_b_plus_c_renders_abc:
  "rendered (parse_text category_name ''a + b + c'') = Some (Inr ''abc'')"
  by (simp add: observe_eval parse_eval lex_eval)

text \<open>
  C1, amended: \<open>parseExpression\<close> returns what the prefix handler of the current token's
  category returns, if there is one: it ignores the minimum precedence, leaves the parser
  as it is (no token is consumed) and yields either no expression or the identifier of
  the current token. Both \<^verbatim>\<open>a + b + c\<close> and \<^verbatim>\<open>a + b * c\<close> render as \<^verbatim>\<open>abc\<close>, whatever the
  names of the categories.
\<close>

theorem parseExpression_no_infix_loop:
  "parseExpression precedence p = parseExpression LOWEST p
   \<and> snd (parseExpression precedence p) = p
   \<and> fst (parseExpression precedence p)
       \<in> {None, Some (IdentifierExpr (Identifier (curToken p) (Literal (curToken p))))}
   \<and> rendered (parse_text nm ''a + b + c'') = Some (Inr ''abc'')
   \<and> rendered (parse_text nm ''a + b * c'') = Some (Inr ''abc'')"
proof (intro conjI)
  show "parseExpression precedence p = parseExpression LOWEST p"
    by (simp add: parseExpression_def)
  show "snd (parseExpression precedence p) = p"
    by (simp add: parseExpression_def apply_prefixParseFn_eq parseIdentifier_def
        split: option.split)
  show "fst (parseExpression precedence p)
      \<in> {None, Some (IdentifierExpr (Identifier (curToken p) (Literal (curToken p))))}"
    by (simp add: parseExpression_def apply_prefixParseFn_eq parseIdentifier_def
        split: option.split)
  show "rendered (parse_text nm ''a + b + c'') = Some (Inr ''abc'')"
    by (simp add: observe_eval parse_eval lex_eval)
  show "rendered (parse_text nm ''a + b * c'') = Some (Inr ''abc'')"
    by (simp add: observe_eval parse_eval lex_eval)
qed

text \<open>
  C4, as the spec states it: with no prefix handler for the current token's category,
  \<open>parseExpression\<close> appends an error \<^verbatim>\<open>no prefix parse function for ...\<close>. On the text
  \<^verbatim>\<open>5\<close> the current token is an \<open>INT\<close>, which has no handler: the result is no expression
  and the list of errors is still empty.
\<close>

theorem parseExpression_INT_records_no_error:
  "parseExpression_on ''5'' = Inr (None, [])"
  by (simp add: observe_eval parse_eval lex_eval)

text \<open>
  C4, amended: with no prefix handler for the current token's category,
  \<open>parseExpression\<close> returns no expression and the parser unchanged; it returns no
  expression exactly when there is no such handler, and it never changes the errors.
\<close>

theorem parseExpression_nil_iff_no_prefix:
  "(prefixParseFns p (Type (curToken p)) = None \<longrightarrow> parseExpression precedence p = (None, p))
   \<and> (fst (parseExpression precedence p) = None
        \<longleftrightarrow> prefixParseFns p (Type (curToken p)) = None)
   \<and> errors (snd (parseExpression precedence p)) = errors p"
  by (simp add: parseExpression_def apply_prefixParseFn_eq parseIdentifier_def
      split: option.split)

theorem parseExpression_nil_iff_no_prefix_witness:
  "prefixParseFns
     \<lparr>lexer = lexer_at ''5'' 2, curToken = \<lparr>Type = INT_t, Literal = ''5''\<rparr>,
      peekToken = \<lparr>Type = EOF, Literal = []\<rparr>, errors = [],
      prefixParseFns = Map.empty(IDENT \<mapsto> parseIdentifier_fn), infixParseFns = Map.empty\<rparr>
     INT_t = None
   \<and> parseExpression LOWEST
       \<lparr>lexer = lexer_at ''5'' 2, curToken = \<lparr>Type = INT_t, Literal = ''5''\<rparr>,
        peekToken = \<lparr>Type = EOF, Literal = []\<rparr>, errors = [],
        prefixParseFns = Map.empty(IDENT \<mapsto> parseIdentifier_fn), infixParseFns = Map.empty\<rparr>
     = (None,
       \<lparr>lexer = lexer_at ''5'' 2, curToken = \<lparr>Type = INT_t, Literal = ''5''\<rparr>,
        peekToken = \<lparr>Type = EOF, Literal = []\<rparr>, errors = [],
        prefixParseFns = Map.empty(IDENT \<mapsto> parseIdentifier_fn), infixParseFns = Map.empty\<rparr>)"
  using parseExpression_nil_iff_no_prefix
    [of "\<lparr>lexer = lexer_at ''5'' 2, curToken = \<lparr>Type = INT_t, Literal = ''5''\<rparr>,
          peekToken = \<lparr>Type = EOF, Literal = []\<rparr>, errors = [],
          prefixParseFns = Map.empty(IDENT \<mapsto> parseIdentifier_fn),
          infixParseFns = Map.empty\<rparr>" LOWEST]
  by simp

section \<open>Let statements\<close>

text \<open>
  C3, as the spec states it: \<^verbatim>\<open>let x = 5;\<close> yields a let statement with the name \<^verbatim>\<open>x\<close>
  and the integer literal 5 as its value, and no error. The statement that the parser
  builds has no value, and the parser has recorded an error for the token \<^verbatim>\<open>5\<close>.
\<close>

theorem let_x_5_value_nil_and_error:
  "parse_statements (parse_text category_name ''let x = 5;'')
     = Some (Inr [Some (LetStatement \<lparr>Type = LET, Literal = ''let''\<rparr>
                    (Some (Identifier \<lparr>Type = IDENT, Literal = ''x''\<rparr> ''x'')) None)])
   \<and> parse_errors (parse_text category_name ''let x = 5;'')
     = Some (Inr [''expected next token to be SEMICOLON, got INT instead''])"
  by (simp add: observe_eval parse_eval lex_eval)

text \<open>
  C3, amended: \<^verbatim>\<open>let x = 5;\<close> yields a program of one let statement whose name has the
  value \<^verbatim>\<open>x\<close> and whose value is nil: the tokens up to the semicolon are skipped. (Nothing
  is said here of the errors.)
\<close>

theorem let_x_5_name_x_value_nil:
  "parse_statements (parse_text nm ''let x = 5;'')
     = Some (Inr [Some (LetStatement \<lparr>Type = LET, Literal = ''let''\<rparr>
                    (Some (Identifier \<lparr>Type = IDENT, Literal = ''x''\<rparr> ''x'')) None)])"
  by (simp add: observe_eval parse_eval lex_eval)

text \<open>
  C5: on \<^verbatim>\<open>let x 5;\<close> the statement parser returns nil and records one error that names
  the expected category \<open>ASSIGN\<close> and the actual category \<open>INT\<close>; \<open>ParseProgram\<close> goes on
  with the next statement (the expression statement of the token \<^verbatim>\<open>5\<close>) and returns a
  program and the errors. The first statement of the program is the nil pointer that
  \<open>ParseLetStatment\<close> returned, which as an interface value is not nil.
\<close>

theorem let_x_5_missing_assign:
  "ParseLetStatment_on nm ''let x 5;''
     = Some (Inr (None,
         [''expected next token to be '' @ nm ASSIGN @ '', got '' @ nm INT_t @ '' instead'']))
   \<and> parse_statements (parse_text nm ''let x 5;'')
     = Some (Inr [Some (NilStatement LetStatementK),
                  Some (ExpressionStatement \<lparr>Type = INT_t, Literal = ''5''\<rparr> None)])
   \<and> parse_errors (parse_text nm ''let x 5;'')
     = Some (Inr
         [''expected next token to be '' @ nm ASSIGN @ '', got '' @ nm INT_t @ '' instead''])"
  by (simp add: observe_eval parse_eval lex_eval)

section \<open>Termination of the parser\<close>

lemma at_end_step:
  assumes "at_end_of_input p"
  shows "\<exists>p2. at_end_of_input p2
           \<and> expectPeek nm SEMICOLON p = Inr (False, peekError nm SEMICOLON p)
           \<and> parser_NextToken (peekError nm SEMICOLON p) = Inr p2"
proof -
  let ?s = "input (lexer p)" and ?i = "position (lexer p)"
  from assms have pk: "Type (peekToken p) = EOF" and lx: "lexer p = lexer_at ?s ?i"
    and le: "length ?s \<le> ?i"
    by (simp_all add: at_end_of_input_def)
  have e: "expectPeek nm SEMICOLON p = Inr (False, peekError nm SEMICOLON p)"
    using pk by (simp add: expectPeek_def peekTokenIs_def)
  have "lexer_NextToken (lexer p) = Inr (EOF_token, lexer_at ?s (?i + 1))"
    using NextToken_end [OF le] lx by simp
  then have n: "parser_NextToken (peekError nm SEMICOLON p)
      = Inr ((peekError nm SEMICOLON p)
          \<lparr>curToken := peekToken (peekError nm SEMICOLON p), peekToken := EOF_token,
           lexer := lexer_at ?s (?i + 1)\<rparr>)"
    by (simp add: parser_NextToken_def peekError_def)
  have "at_end_of_input ((peekError nm SEMICOLON p)
          \<lparr>curToken := peekToken (peekError nm SEMICOLON p), peekToken := EOF_token,
           lexer := lexer_at ?s (?i + 1)\<rparr>)"
    using le by (simp add: at_end_of_input_def EOF_token_def)
  with e n show ?thesis by blast
qed

lemma expectSemicolon_loop_returns_not_at_end:
  assumes "expectSemicolon_loop nm p = Some y"
  shows "\<not> at_end_of_input p"
proof (rule expectSemicolon_loop.raw_induct
    [where P = "\<lambda>nm p y. \<not> at_end_of_input p", OF _ assms])
  fix f :: "(TokenType \<Rightarrow> string) \<Rightarrow> Parser \<Rightarrow> (error + Parser) option"
    and nm p y
  assume IH: "\<And>nm p y. f nm p = Some y \<Longrightarrow> \<not> at_end_of_input p"
  assume body:
    "(case expectPeek nm SEMICOLON p of
        Inl e \<Rightarrow> Some (Inl e)
      | Inr (ok, p1) \<Rightarrow>
          if ok then Some (Inr p1)
          else (case parser_NextToken p1 of
                  Inl e \<Rightarrow> Some (Inl e)
                | Inr p2 \<Rightarrow> f nm p2)) = Some y"
  show "\<not> at_end_of_input p"
  proof
    assume "at_end_of_input p"
    from at_end_step [OF this, of nm] obtain p2 where
      p2: "at_end_of_input p2"
          "expectPeek nm SEMICOLON p = Inr (False, peekError nm SEMICOLON p)"
          "parser_NextToken (peekError nm SEMICOLON p) = Inr p2"
      by blast
    from body p2(2,3) have "f nm p2 = Some y" by simp
    from IH [OF this] p2(1) show False by simp
  qed
qed

lemma expectSemicolon_loop_diverges:
  "at_end_of_input p \<Longrightarrow> expectSemicolon_loop nm p = None"
  using expectSemicolon_loop_returns_not_at_end [of nm p] by (cases "expectSemicolon_loop nm p") auto

lemmas parse_eval_once =
  parse_text_def parser_New_def lexer_New_at registerPrefix_def ParseProgram_def
  ParseStatement_def ParseLetStatment_def ParseReturnStatement_def
  ParseExpressionStatement_def expectPeek_def peekError_def
  parser_NextToken_def curTokenIs_def peekTokenIs_def parseExpression_def parseIdentifier_def
  Statement_of_LetStatement_def Statement_of_ReturnStatement_def
  Statement_of_ExpressionStatement_def

lemma let_without_semicolon_diverges: "parse_text nm ''let x = 5'' = None"
  apply (simp add: parse_eval_once lex_eval)
  apply (subst ParseProgram_loop.simps)
  apply (simp add: parse_eval_once lex_eval)
  apply (subst expectSemicolon_loop.simps)
  apply (simp add: parse_eval_once lex_eval)
  apply (subst expectSemicolon_loop_diverges)
   apply (simp add: at_end_of_input_def)
  apply simp
  done

lemma return_without_semicolon_diverges: "parse_text nm ''return 1'' = None"
  apply (simp add: parse_eval_once lex_eval)
  apply (subst ParseProgram_loop.simps)
  apply (simp add: parse_eval_once lex_eval)
  apply (subst expectSemicolon_loop_diverges)
   apply (simp add: at_end_of_input_def)
  apply simp
  done

text \<open>
  C2: \<open>ParseProgram\<close> terminates on every input, in particular on \<^verbatim>\<open>let x = 5\<close> and
  \<^verbatim>\<open>return 1\<close> without a semicolon. On both texts the loop that skips to the semicolon
  reaches the end of the input, where \<open>peekToken\<close> is \<open>EOF\<close> for ever, and records one more
  error at every turn: \<open>ParseProgram\<close> does not return.
\<close>

theorem ParseProgram_without_semicolon_never_returns:
  "parse_text nm ''let x = 5'' = None \<and> parse_text nm ''return 1'' = None"
  by (simp add: let_without_semicolon_diverges return_without_semicolon_diverges)

section \<open>The token-count property\<close>

text \<open>
  C6, as the spec states it: every call of \<open>NextToken\<close> returns a token, an \<open>EOF\<close> comes
  within input length + 1 calls, and after an \<open>EOF\<close> every call returns \<open>EOF\<close>. The byte 0
  is the lexer's mark for the end of the input, so a byte 0 inside the input is returned
  as \<open>EOF\<close> and the tokens after it are not \<open>EOF\<close>.
\<close>

theorem NextToken_after_NUL_not_EOF:
  "NextToken_n 2 (lexer_New [CHR 0x00, CHR ''a''])
     = Inr ([\<lparr>Type = EOF, Literal = []\<rparr>, \<lparr>Type = IDENT, Literal = ''a''\<rparr>],
            lexer_at [CHR 0x00, CHR ''a''] 2)"
  by (simp add: lexer_New_at lex_eval numeral_2_eq_2)

text \<open>
  C6, amended. On an input without a double quote, \<open>n\<close> calls in a row return \<open>n\<close> tokens,
  for every \<open>n\<close>. On every input, if \<open>n\<close> calls return, they return \<open>n\<close> tokens, and every
  call from the call number input length + 1 on returns the \<open>EOF\<close> token; if the input
  has no byte 0, every call after a call that returned \<open>EOF\<close> returns the \<open>EOF\<close> token.
  (A call that does not return is a panic of the string branch, see C7 and C10.)
\<close>

theorem NextToken_n_reaches_EOF:
  "(CHR 0x22 \<notin> set s \<longrightarrow> (\<exists>toks l'. NextToken_n n (lexer_New s) = Inr (toks, l')))
   \<and> (\<forall>toks l'. NextToken_n n (lexer_New s) = Inr (toks, l') \<longrightarrow>
        length toks = n
        \<and> (\<forall>m. length s \<le> m \<and> m < n \<longrightarrow> toks ! m = EOF_token)
        \<and> (CHR 0x00 \<notin> set s \<longrightarrow>
             (\<forall>m m'. m < m' \<and> m' < n \<and> Type (toks ! m) = EOF \<longrightarrow> toks ! m' = EOF_token)))"
proof (intro conjI impI allI)
  assume "CHR 0x22 \<notin> set s"
  then show "\<exists>toks l'. NextToken_n n (lexer_New s) = Inr (toks, l')"
    unfolding lexer_New_at by (rule NextToken_n_total)
next
  fix toks l'
  assume r: "NextToken_n n (lexer_New s) = Inr (toks, l')"
  then have r': "NextToken_n n (lexer_at s 0) = Inr (toks, l')" by (simp only: lexer_New_at)
  note f = NextToken_n_tokens [OF r']
  from f show "length toks = n" by blast
  { fix m assume "length s \<le> m \<and> m < n"
    with f show "toks ! m = EOF_token" by simp }
  { fix m m' assume "CHR 0x00 \<notin> set s" "m < m' \<and> m' < n \<and> Type (toks ! m) = EOF"
    with f show "toks ! m' = EOF_token" by blast }
qed

theorem NextToken_n_reaches_EOF_witness:
  "CHR 0x22 \<notin> set ''a;'' \<and> CHR 0x00 \<notin> set ''a;''
   \<and> NextToken_n 4 (lexer_New ''a;'')
       = Inr ([\<lparr>Type = IDENT, Literal = ''a''\<rparr>, \<lparr>Type = SEMICOLON, Literal = '';''\<rparr>,
               EOF_token, EOF_token], lexer_at ''a;'' 4)
   \<and> [\<lparr>Type = IDENT, Literal = ''a''\<rparr>, \<lparr>Type = SEMICOLON, Literal = '';''\<rparr>,
               EOF_token, EOF_token] ! 2 = EOF_token
   \<and> [\<lparr>Type = IDENT, Literal = ''a''\<rparr>, \<lparr>Type = SEMICOLON, Literal = '';''\<rparr>,
               EOF_token, EOF_token] ! 3 = EOF_token"
proof -
  have run: "NextToken_n 4 (lexer_New ''a;'')
       = Inr ([\<lparr>Type = IDENT, Literal = ''a''\<rparr>, \<lparr>Type = SEMICOLON, Literal = '';''\<rparr>,
               EOF_token, EOF_token], lexer_at ''a;'' 4)"
    by (simp add: lexer_New_at lex_eval EOF_token_def eval_nat_numeral)
  from NextToken_n_reaches_EOF [of "''a;''" 4] run show ?thesis by simp
qed

section \<open>String literals and slices\<close>

text \<open>
  C7: the literal of a string token is the text between the quotes, also for the empty
  string. On the two bytes \<^verbatim>\<open>""\<close> the code returns a string token whose literal is one
  double quote: \<open>readString\<close> moves past the first character of the string before it
  looks for the closing quote.
\<close>

theorem readString_empty_literal_is_quote:
  "token_of (lexer_NextToken (lexer_New [CHR 0x22, CHR 0x22]))
     = Inr \<lparr>Type = STRING, Literal = [CHR 0x22]\<rparr>"
  by (simp add: observe_eval lexer_New_at lex_eval)

text \<open>
  C10: \<open>NextToken\<close> never slices the input out of bounds. On an input that is one double
  quote, the slice of \<open>readString\<close> ends one byte beyond the input and the call panics.
\<close>

theorem NextToken_lone_quote_out_of_range:
  "lexer_NextToken (lexer_New [CHR 0x22]) = Inl SliceOutOfRange"
  by (simp add: observe_eval lexer_New_at lex_eval)

section \<open>Rendering\<close>

text \<open>
  C8: a call renders as the rendering of the callee followed by the arguments in
  parentheses. \<open>CallExpression.String\<close> writes the literal of the node's token in place
  of the callee, which it never reads: the call of \<^verbatim>\<open>add\<close> with the token \<^verbatim>\<open>(\<close> renders
  as \<^verbatim>\<open>((1, 2)\<close>, and the rendering is the same with no callee at all.
\<close>

theorem CallExpression_String_drops_callee:
  "Expression_String (CallExpression \<lparr>Type = LPAREN, Literal = ''(''\<rparr>
     (Some (IdentifierExpr (Identifier \<lparr>Type = IDENT, Literal = ''add''\<rparr> ''add'')))
     [Some (IntegerLiteral \<lparr>Type = INT_t, Literal = ''1''\<rparr> 1),
      Some (IntegerLiteral \<lparr>Type = INT_t, Literal = ''2''\<rparr> 2)]) = Inr ''((1, 2)''
   \<and> Expression_String (CallExpression tok function arguments)
     = Expression_String (CallExpression tok None arguments)"
  by (simp add: deref_def)

end
